theory Spec2Isabelle
  imports Complex_Main "HOL-Library.Word" "HOL-Library.Sublist"
begin

section \<open>Values exchanged with the outside world\<close>

text \<open>
  The script \<^verbatim>\<open>export.py\<close> talks to a remote API, to the clock, to the file system and to
  the two output streams.  Whatever \<^verbatim>\<open>response.json()\<close> returns is an arbitrary JSON value:
  the source inspects it with \<^verbatim>\<open>.get\<close> and truthiness tests only, and raises
  \<^verbatim>\<open>AttributeError\<close> when a value that should be a dict is something else.  A parsed
  dict is an association list (the parser keeps one entry per key).
\<close>

datatype json =
    JNull
  | JBool bool
  | JInt int
  | JFloat rat
  | JStr string
  | JList "json list"
  | JDict "(string \<times> json) list"

text \<open>Python truthiness (\<^verbatim>\<open>if not x\<close>) of a parsed JSON value.\<close>

fun truthy :: "json \<Rightarrow> bool" where
  "truthy JNull = False"
| "truthy (JBool b) = b"
| "truthy (JInt i) = (i \<noteq> 0)"
| "truthy (JFloat q) = (q \<noteq> 0)"
| "truthy (JStr s) = (s \<noteq> [])"
| "truthy (JList xs) = (xs \<noteq> [])"
| "truthy (JDict kvs) = (kvs \<noteq> [])"

fun type_name :: "json \<Rightarrow> string" where
  "type_name JNull = ''NoneType''"
| "type_name (JBool b) = ''bool''"
| "type_name (JInt i) = ''int''"
| "type_name (JFloat q) = ''float''"
| "type_name (JStr s) = ''str''"
| "type_name (JList xs) = ''list''"
| "type_name (JDict kvs) = ''dict''"

text \<open>
  An f-string is the sequence of its literal parts and of the values it formats.  The
  text of \<^verbatim>\<open>str(d)\<close> for a parsed body \<open>d\<close> and of \<^verbatim>\<open>str(n)\<close> for an integer is kept as a
  piece of its own, so that a message shows which value it was built from.
\<close>

datatype piece = Lit string | Str_json json | Str_int int

type_synonym msg = "piece list"

datatype exn =
    ValueError msg
  | RuntimeError msg
  | TimeoutError msg
  | AttributeError msg
  | HTTPError msg
  | RequestException msg
  | JSONDecodeError msg
  | OSError msg

text \<open>\<^verbatim>\<open>str(e)\<close> of an exception built from one message.\<close>

fun str_exn :: "exn \<Rightarrow> msg" where
  "str_exn (ValueError m) = m"
| "str_exn (RuntimeError m) = m"
| "str_exn (TimeoutError m) = m"
| "str_exn (AttributeError m) = m"
| "str_exn (HTTPError m) = m"
| "str_exn (RequestException m) = m"
| "str_exn (JSONDecodeError m) = m"
| "str_exn (OSError m) = m"

type_synonym bytes = "8 word list"

type_synonym path = "string list"

text \<open>
  A \<^verbatim>\<open>requests.Response\<close>: the status line, what \<^verbatim>\<open>.json()\<close> yields (\<open>None\<close> when the body
  is not JSON), the body bytes that \<^verbatim>\<open>iter_content\<close> streams, and the number of chunks
  after which the connection breaks, if it does.
\<close>

record response =
  status_code :: nat
  reason :: string
  json_body :: "json option"
  content :: bytes
  breaks_after :: "nat option"

datatype event =
    Stdout msg
  | Stderr msg
  | HttpPost string "(string \<times> string) list" json
  | Sleep int
  | Mkdir path
  | OpenWB path
  | HttpGet json
  | Write path bytes

text \<open>
  What the surroundings decide during one run: the environment variables, the outcome and
  duration of the \<open>k\<close>-th POST, how much longer than asked the \<open>k\<close>-th sleep lasts, and
  the outcome of a GET.
\<close>

record env =
  getenv :: "string \<Rightarrow> string option"
  post_reply :: "nat \<Rightarrow> exn + response"
  post_latency :: "nat \<Rightarrow> real"
  oversleep :: "nat \<Rightarrow> real"
  get_reply :: "string \<Rightarrow> exn + response"

text \<open>
  The state the script changes: the clock reading, the numbers of POSTs and sleeps done,
  every effect in the order it happened, and the directories and files on disk.
\<close>

record world =
  now :: real
  posts :: nat
  naps :: nat
  trace :: "event list"
  dirs :: "path set"
  files :: "path \<Rightarrow> bytes option"

section \<open>Constants of the source\<close>

definition API_BASE_URL :: string where
  "API_BASE_URL = ''https://api.meshcapade.com/api/v1''"

definition ASSET_STATE_READY :: string where
  "ASSET_STATE_READY = ''READY''"

definition ASSET_STATE_ERROR :: string where
  "ASSET_STATE_ERROR = ''ERROR''"

definition poll_interval :: int where
  "poll_interval = 5"

definition max_wait :: int where
  "max_wait = 600"

definition export_payload :: json where
  "export_payload = JDict [(''format'', JStr ''GLB''), (''anim'', JStr ''scan'')]"

section \<open>Library operations\<close>

definition emit :: "event \<Rightarrow> world \<Rightarrow> world" where
  "emit e w = w\<lparr>trace := trace w @ [e]\<rparr>"

text \<open>\<^verbatim>\<open>obj.get(key, default)\<close>: only a dict has the method.\<close>

definition dict_get :: "json \<Rightarrow> string \<Rightarrow> json \<Rightarrow> exn + json" where
  "dict_get obj key dflt =
     (case obj of
        JDict kvs \<Rightarrow> Inr (case map_of kvs key of None \<Rightarrow> dflt | Some v \<Rightarrow> v)
      | _ \<Rightarrow> Inl (AttributeError
                 [Lit [CHR 0x27], Lit (type_name obj), Lit [CHR 0x27],
                  Lit '' object has no attribute '', Lit [CHR 0x27], Lit ''get'', Lit [CHR 0x27]]))"

text \<open>\<^verbatim>\<open>requests.post\<close>: the \<open>k\<close>-th call takes its time and gets the \<open>k\<close>-th outcome.\<close>

definition requests_post ::
  "env \<Rightarrow> string \<Rightarrow> (string \<times> string) list \<Rightarrow> json \<Rightarrow> world \<Rightarrow> (exn + response) \<times> world" where
  "requests_post e url headers payload w =
     (post_reply e (posts w),
      w\<lparr>now := now w + post_latency e (posts w),
        posts := Suc (posts w),
        trace := trace w @ [HttpPost url headers payload]\<rparr>)"

text \<open>\<^verbatim>\<open>response.raise_for_status()\<close>: statuses 400 to 599 raise \<^verbatim>\<open>HTTPError\<close>.\<close>

definition raise_for_status :: "response \<Rightarrow> string \<Rightarrow> exn + unit" where
  "raise_for_status r url =
     (if 400 \<le> status_code r \<and> status_code r < 500 then
        Inl (HTTPError [Str_int (int (status_code r)), Lit '' Client Error: '',
                        Lit (reason r), Lit '' for url: '', Lit url])
      else if 500 \<le> status_code r \<and> status_code r < 600 then
        Inl (HTTPError [Str_int (int (status_code r)), Lit '' Server Error: '',
                        Lit (reason r), Lit '' for url: '', Lit url])
      else Inr ())"

definition response_json_of :: "response \<Rightarrow> exn + json" where
  "response_json_of r =
     (case json_body r of
        None \<Rightarrow> Inl (JSONDecodeError [Lit ''Expecting value''])
      | Some j \<Rightarrow> Inr j)"

text \<open>\<^verbatim>\<open>time.sleep(d)\<close>: at least \<open>d\<close> seconds pass on the clock.\<close>

definition time_sleep :: "env \<Rightarrow> int \<Rightarrow> world \<Rightarrow> world" where
  "time_sleep e d w =
     w\<lparr>now := now w + of_int d + oversleep e (naps w),
       naps := Suc (naps w),
       trace := trace w @ [Sleep d]\<rparr>"

text \<open>\<^verbatim>\<open>int(x)\<close> of a float rounds toward zero.\<close>

definition py_int :: "real \<Rightarrow> int" where
  "py_int x = (if x < 0 then \<lceil>x\<rceil> else \<lfloor>x\<rfloor>)"

text \<open>
  \<^verbatim>\<open>Path(s)\<close>: the components of \<open>s\<close>, a leading slash kept as the component \<open>/\<close>, empty
  components and single dots dropped; \<^verbatim>\<open>.parent\<close> drops the last component.
\<close>

fun split_slash :: "string \<Rightarrow> string list" where
  "split_slash [] = [[]]"
| "split_slash (c # cs) =
     (if c = CHR ''/'' then [] # split_slash cs
      else (case split_slash cs of
              [] \<Rightarrow> [[c]]
            | p # ps \<Rightarrow> (c # p) # ps))"

definition Path :: "string \<Rightarrow> path" where
  "Path s =
     (if s \<noteq> [] \<and> hd s = CHR ''/'' then [''/''] else [])
     @ filter (\<lambda>p. p \<noteq> [] \<and> p \<noteq> ''.'') (split_slash s)"

definition parent :: "path \<Rightarrow> path" where
  "parent p = (if p = [''/''] then p else butlast p)"

definition is_dir :: "world \<Rightarrow> path \<Rightarrow> bool" where
  "is_dir w p = (p = [] \<or> p = [''/''] \<or> p \<in> dirs w)"

text \<open>
  \<^verbatim>\<open>d.mkdir(parents=True, exist_ok=True)\<close>: fails when \<open>d\<close> or one of its ancestors is a
  regular file, otherwise every ancestor of \<open>d\<close> and \<open>d\<close> itself are directories afterwards.
\<close>

definition mkdir_parents :: "path \<Rightarrow> world \<Rightarrow> (exn + unit) \<times> world" where
  "mkdir_parents d w =
     (if \<exists>q \<in> set (prefixes d). files w q \<noteq> None then
        (Inl (OSError [Lit ''File exists'']), emit (Mkdir d) w)
      else
        (Inr (), emit (Mkdir d) (w\<lparr>dirs := dirs w \<union> set (prefixes d)\<rparr>)))"

text \<open>
  \<^verbatim>\<open>open(p, "wb")\<close>: fails on a directory or under a missing directory, otherwise the
  file exists and is empty afterwards.
\<close>

definition open_wb :: "path \<Rightarrow> world \<Rightarrow> (exn + unit) \<times> world" where
  "open_wb p w =
     (if is_dir w p then (Inl (OSError [Lit ''Is a directory'']), w)
      else if \<not> is_dir w (parent p) then (Inl (OSError [Lit ''No such file or directory'']), w)
      else (Inr (), emit (OpenWB p) (w\<lparr>files := (files w)(p \<mapsto> [])\<rparr>)))"

definition file_write :: "path \<Rightarrow> bytes \<Rightarrow> world \<Rightarrow> world" where
  "file_write p chunk w =
     emit (Write p chunk)
       (w\<lparr>files := (files w)(p \<mapsto> (case files w p of None \<Rightarrow> [] | Some old \<Rightarrow> old) @ chunk)\<rparr>)"

text \<open>\<^verbatim>\<open>requests.get(url, stream=True, timeout=60)\<close>; a URL that is not a string has no scheme.\<close>

definition requests_get :: "env \<Rightarrow> json \<Rightarrow> exn + response" where
  "requests_get e url =
     (case url of
        JStr u \<Rightarrow> get_reply e u
      | _ \<Rightarrow> Inl (RequestException [Lit ''Invalid URL '', Str_json url, Lit '': No scheme supplied'']))"

text \<open>\<^verbatim>\<open>iter_content(chunk_size=n)\<close>: the body in pieces of \<open>n\<close> bytes, the last one shorter.\<close>

function iter_content :: "nat \<Rightarrow> bytes \<Rightarrow> bytes list" where
  "iter_content n bs =
     (if n = 0 \<or> bs = [] then [] else take n bs # iter_content n (drop n bs))"
  by pat_completeness auto
termination
  by (relation "measure (\<lambda>(n, bs). length bs)") auto

declare iter_content.simps [simp del]

section \<open>The export requester\<close>

text \<open>
  Lines 60 to 76 of \<^verbatim>\<open>try_get_download_url\<close>: what the function makes of the parsed body.
  \<^verbatim>\<open>None\<close> is \<open>JNull\<close>.
\<close>

definition read_export_response :: "json \<Rightarrow> exn + json" where
  "read_export_response response_json =
     (case dict_get response_json ''data'' (JDict []) of
        Inl e \<Rightarrow> Inl e
      | Inr data \<Rightarrow>
     (case dict_get data ''attributes'' (JDict []) of
        Inl e \<Rightarrow> Inl e
      | Inr attributes \<Rightarrow>
     if \<not> truthy attributes then
       Inl (ValueError [Lit ''Export response came back empty: '', Str_json response_json])
     else
     (case dict_get attributes ''state'' JNull of
        Inl e \<Rightarrow> Inl e
      | Inr state \<Rightarrow>
     (case dict_get attributes ''url'' (JDict []) of
        Inl e \<Rightarrow> Inl e
      | Inr url_obj \<Rightarrow>
     (case (if truthy url_obj then dict_get url_obj ''path'' JNull else Inr JNull) of
        Inl e \<Rightarrow> Inl e
      | Inr download_url \<Rightarrow>
     if state = JStr ASSET_STATE_READY then Inr download_url
     else if state = JStr ASSET_STATE_ERROR then
       Inl (RuntimeError [Lit ''Export finished with ERROR state: '', Str_json response_json])
     else Inr JNull)))))"

text \<open>Lines 55 to 76: the checks on a response that did arrive.\<close>

definition check_export_response :: "string \<Rightarrow> response \<Rightarrow> exn + json" where
  "check_export_response url r =
     (case raise_for_status r url of
        Inl e \<Rightarrow> Inl e
      | Inr _ \<Rightarrow>
     (case response_json_of r of
        Inl e \<Rightarrow> Inl e
      | Inr response_json \<Rightarrow> read_export_response response_json))"

definition try_get_download_url ::
  "env \<Rightarrow> string \<Rightarrow> string \<Rightarrow> json \<Rightarrow> world \<Rightarrow> (exn + json) \<times> world" where
  "try_get_download_url e token asset_id payload w =
     (let url = API_BASE_URL @ ''/avatars/'' @ asset_id @ ''/export'';
          headers = [(''Authorization'', ''Bearer '' @ token),
                     (''Content-Type'', ''application/json'')]
      in case requests_post e url headers payload w of
           (Inl ex, w1) \<Rightarrow> (Inl ex, w1)
         | (Inr r, w1) \<Rightarrow> (check_export_response url r, w1))"

section \<open>The poll loop\<close>

definition progress_line :: "real \<Rightarrow> msg" where
  "progress_line elapsed =
     [Lit ''Export processing... (elapsed: '', Str_int (py_int elapsed), Lit ''s)'']"

definition timeout_error :: exn where
  "timeout_error =
     TimeoutError [Lit ''Export timed out after '', Str_int max_wait, Lit '' seconds'']"

text \<open>
  The \<^verbatim>\<open>while not download_url\<close> loop of \<^verbatim>\<open>export_avatar\<close>.  Nothing in the loop bounds the
  number of rounds when the clock stands still, so not returning is the value \<open>None\<close>.
\<close>

partial_function (option) poll ::
  "env \<Rightarrow> string \<Rightarrow> string \<Rightarrow> real \<Rightarrow> json \<Rightarrow> world \<Rightarrow> ((exn + json) \<times> world) option" where
  "poll e token asset_id start_time download_url w =
     (if truthy download_url then Some (Inr download_url, w)
      else
        (case try_get_download_url e token asset_id export_payload w of
           (Inl ex, w1) \<Rightarrow> Some (Inl ex, w1)
         | (Inr download_url', w1) \<Rightarrow>
             if truthy download_url' then Some (Inr download_url', w1)
             else if now w1 - start_time > of_int max_wait then Some (Inl timeout_error, w1)
             else poll e token asset_id start_time download_url'
                    (time_sleep e poll_interval
                       (emit (Stdout (progress_line (now w1 - start_time))) w1))))"

definition export_avatar ::
  "env \<Rightarrow> string \<Rightarrow> string \<Rightarrow> world \<Rightarrow> ((exn + json) \<times> world) option" where
  "export_avatar e token asset_id w = poll e token asset_id (now w) JNull w"

section \<open>The downloader\<close>

text \<open>The \<^verbatim>\<open>try\<close> block of \<^verbatim>\<open>download_file\<close> with its \<^verbatim>\<open>except HTTPError\<close> handler.\<close>

definition fetch :: "env \<Rightarrow> json \<Rightarrow> exn + response" where
  "fetch e download_url =
     (case (case requests_get e download_url of
              Inl ex \<Rightarrow> Inl ex
            | Inr r \<Rightarrow> (case raise_for_status r (case download_url of JStr u \<Rightarrow> u | _ \<Rightarrow> []) of
                         Inl ex \<Rightarrow> Inl ex
                       | Inr _ \<Rightarrow> Inr r)) of
        Inl (HTTPError m) \<Rightarrow> Inl (RuntimeError (Lit ''Failed to download file: '' # m))
      | Inl ex \<Rightarrow> Inl ex
      | Inr r \<Rightarrow> Inr r)"

text \<open>The \<^verbatim>\<open>for chunk in response.iter_content(...)\<close> loop.\<close>

definition write_chunks :: "path \<Rightarrow> response \<Rightarrow> world \<Rightarrow> (exn + unit) \<times> world" where
  "write_chunks output_file r w =
     (let chunks = iter_content (1024 * 1024) (content r)
      in case breaks_after r of
           None \<Rightarrow> (Inr (), fold (file_write output_file) chunks w)
         | Some k \<Rightarrow>
             if k < length chunks then
               (Inl (RequestException [Lit ''Connection broken'']),
                fold (file_write output_file) (take k chunks) w)
             else (Inr (), fold (file_write output_file) chunks w))"

definition download_file :: "env \<Rightarrow> json \<Rightarrow> string \<Rightarrow> world \<Rightarrow> (exn + unit) \<times> world" where
  "download_file e download_url output_path w =
     (let output_file = Path output_path
      in case mkdir_parents (parent output_file) w of
           (Inl ex, w1) \<Rightarrow> (Inl ex, w1)
         | (Inr _, w1) \<Rightarrow>
        (case open_wb output_file w1 of
           (Inl ex, w2) \<Rightarrow> (Inl ex, w2)
         | (Inr _, w2) \<Rightarrow>
        (case fetch e download_url of
           Inl ex \<Rightarrow> (Inl ex, emit (HttpGet download_url) w2)
         | Inr r \<Rightarrow>
        (case write_chunks output_file r (emit (HttpGet download_url) w2) of
           (Inl ex, w3) \<Rightarrow> (Inl ex, w3)
         | (Inr _, w3) \<Rightarrow>
             (Inr (), emit (Stdout [Lit ''  File downloaded to: '', Lit output_path]) w3)))))"

section \<open>The orchestrator\<close>

text \<open>
  The \<^verbatim>\<open>try\<close> block of \<^verbatim>\<open>main\<close>, for the asset identifier that \<^verbatim>\<open>parse_args\<close> returned.
\<close>

definition main_steps :: "env \<Rightarrow> string \<Rightarrow> world \<Rightarrow> ((exn + unit) \<times> world) option" where
  "main_steps e asset_id w =
     (let output_path = asset_id @ ''.glb'';
          w1 = emit (Stdout [Lit ''Step 1: Getting API token...'']) w
      in case getenv e ''MESHCAPADE_API_TOKEN'' of
           None \<Rightarrow>
             Some (Inl (ValueError
                     [Lit ''MESHCAPADE_API_TOKEN is not set in the environment variables'']), w1)
         | Some token \<Rightarrow>
             if token = [] then
               Some (Inl (ValueError
                       [Lit ''MESHCAPADE_API_TOKEN is not set in the environment variables'']), w1)
             else
               (case export_avatar e token asset_id
                       (emit (Stdout [Lit ''Step 2: Exporting avatar...'']) w1) of
                  None \<Rightarrow> None
                | Some (Inl ex, w3) \<Rightarrow> Some (Inl ex, w3)
                | Some (Inr download_url, w3) \<Rightarrow>
                    (case download_file e download_url output_path
                            (emit (Stdout [Lit ''Step 3: Downloading avatar...''])
                               (emit (Stdout [Lit ''Export completed!'']) w3)) of
                       (Inl ex, w5) \<Rightarrow> Some (Inl ex, w5)
                     | (Inr _, w5) \<Rightarrow>
                         Some (Inr (),
                               emit (Stdout [Lit (CHR 0x0A # ''Success! Avatar downloaded and saved to: ''),
                                             Lit output_path]) w5))))"

text \<open>\<^verbatim>\<open>main\<close>: the exit status of the process and the world it leaves.\<close>

definition main :: "env \<Rightarrow> string \<Rightarrow> world \<Rightarrow> (nat \<times> world) option" where
  "main e asset_id w =
     (case main_steps e asset_id w of
        None \<Rightarrow> None
      | Some (Inl ex, w') \<Rightarrow> Some (1, emit (Stderr (Lit ''Error: '' # str_exn ex)) w')
      | Some (Inr _, w') \<Rightarrow> Some (0, w'))"

section \<open>Vocabulary of the properties\<close>

text \<open>What the requester returns on its \<open>k\<close>-th call, as decided by the \<open>k\<close>-th reply.\<close>

definition requester_result :: "env \<Rightarrow> string \<Rightarrow> nat \<Rightarrow> exn + json" where
  "requester_result e asset_id k =
     (case post_reply e k of
        Inl ex \<Rightarrow> Inl ex
      | Inr r \<Rightarrow> check_export_response (API_BASE_URL @ ''/avatars/'' @ asset_id @ ''/export'') r)"

text \<open>The \<open>k\<close>-th call returns nothing the loop accepts: \<^verbatim>\<open>None\<close> or another falsy value.\<close>

definition pending_at :: "env \<Rightarrow> string \<Rightarrow> nat \<Rightarrow> bool" where
  "pending_at e asset_id k =
     (case requester_result e asset_id k of Inl ex \<Rightarrow> False | Inr v \<Rightarrow> \<not> truthy v)"

text \<open>
  The top-level attributes are missing or empty: there is no \<open>data\<close> member, or it holds
  no \<open>attributes\<close> (as when it is null or any other value that is not an object), or the
  attributes are falsy.
\<close>

definition attributes_missing_or_empty :: "(string \<times> json) list \<Rightarrow> bool" where
  "attributes_missing_or_empty doc =
     (case map_of doc ''data'' of
        None \<Rightarrow> True
      | Some (JDict dat) \<Rightarrow>
          (case map_of dat ''attributes'' of None \<Rightarrow> True | Some a \<Rightarrow> \<not> truthy a)
      | Some _ \<Rightarrow> True)"

text \<open>The \<open>data\<close> member, when there is one, is an object.\<close>

definition data_member_typed :: "(string \<times> json) list \<Rightarrow> bool" where
  "data_member_typed doc =
     (case map_of doc ''data'' of
        None \<Rightarrow> True
      | Some (JDict dat) \<Rightarrow> True
      | Some _ \<Rightarrow> False)"

text \<open>
  The \<open>url\<close> member can be read as the source reads it: it is absent, falsy (null, for
  one), or an object, as the documented format has it.
\<close>

definition url_member_typed :: "(string \<times> json) list \<Rightarrow> bool" where
  "url_member_typed attrs =
     (case map_of attrs ''url'' of
        None \<Rightarrow> True
      | Some (JDict kvs) \<Rightarrow> True
      | Some v \<Rightarrow> \<not> truthy v)"

text \<open>No \<open>url.path\<close>: the \<open>url\<close> object is absent, empty, or has no \<open>path\<close>.\<close>

definition url_path_absent :: "(string \<times> json) list \<Rightarrow> bool" where
  "url_path_absent attrs =
     (case map_of attrs ''url'' of
        None \<Rightarrow> True
      | Some (JDict kvs) \<Rightarrow> map_of kvs ''path'' = None
      | Some _ \<Rightarrow> False)"

text \<open>The world after the POST of one call of the requester.\<close>

definition after_post :: "env \<Rightarrow> string \<Rightarrow> string \<Rightarrow> world \<Rightarrow> world" where
  "after_post e token asset_id w = snd (try_get_download_url e token asset_id export_payload w)"

text \<open>One round of the loop on a pending result: the POST, the progress line, the sleep.\<close>

definition pending_round :: "env \<Rightarrow> string \<Rightarrow> string \<Rightarrow> real \<Rightarrow> world \<Rightarrow> world" where
  "pending_round e token asset_id start_time w =
     time_sleep e poll_interval
       (emit (Stdout (progress_line (now (after_post e token asset_id w) - start_time)))
          (after_post e token asset_id w))"

primrec rounds :: "env \<Rightarrow> string \<Rightarrow> string \<Rightarrow> real \<Rightarrow> nat \<Rightarrow> world \<Rightarrow> world" where
  "rounds e token asset_id start_time 0 w = w"
| "rounds e token asset_id start_time (Suc n) w =
     rounds e token asset_id start_time n (pending_round e token asset_id start_time w)"

fun sleeps_of :: "event list \<Rightarrow> int list" where
  "sleeps_of [] = []"
| "sleeps_of (Sleep d # evs) = d # sleeps_of evs"
| "sleeps_of (ev # evs) = sleeps_of evs"


text \<open>
  The destination can be opened for writing: no ancestor directory is in fact a regular
  file, and the path is not a directory.
\<close>

definition can_open :: "world \<Rightarrow> path \<Rightarrow> bool" where
  "can_open w p = ((\<forall>q \<in> set (prefixes (parent p)). files w q = None) \<and> \<not> is_dir w p)"

section \<open>Sample inputs\<close>

definition world0 :: world where
  "world0 = \<lparr>now = 0, posts = 0, naps = 0, trace = [], dirs = {}, files = (\<lambda>p. None)\<rparr>"

definition ok_response :: "json \<Rightarrow> bytes \<Rightarrow> response" where
  "ok_response j bs =
     \<lparr>status_code = 200, reason = ''OK'', json_body = Some j, content = bs, breaks_after = None\<rparr>"

definition envelope :: "(string \<times> json) list \<Rightarrow> (string \<times> json) list" where
  "envelope attrs = [(''data'', JDict [(''attributes'', JDict attrs)])]"

definition ready_attrs :: "(string \<times> json) list" where
  "ready_attrs = [(''state'', JStr ''READY''), (''url'', JDict [(''path'', JStr ''https://example/x.glb'')])]"

definition processing_attrs :: "(string \<times> json) list" where
  "processing_attrs = [(''state'', JStr ''PROCESSING'')]"

definition error_attrs :: "(string \<times> json) list" where
  "error_attrs = [(''state'', JStr ''ERROR'')]"

definition ready_no_url_attrs :: "(string \<times> json) list" where
  "ready_no_url_attrs = [(''state'', JStr ''READY''), (''url'', JDict [])]"

text \<open>
  Surroundings with a token set, an exact clock, a download of ten bytes, and the export
  status replies given by their attributes.
\<close>

definition ten_bytes :: bytes where
  "ten_bytes = [1, 2, 3, 4, 5, 6, 7, 8, 9, 10]"

definition sample_env :: "string option \<Rightarrow> (nat \<Rightarrow> (string \<times> json) list) \<Rightarrow> env" where
  "sample_env tok attrs_at =
     \<lparr>getenv = (\<lambda>v. if v = ''MESHCAPADE_API_TOKEN'' then tok else None),
      post_reply = (\<lambda>k. Inr (ok_response (JDict (envelope (attrs_at k))) [])),
      post_latency = (\<lambda>k. 0),
      oversleep = (\<lambda>k. 0),
      get_reply = (\<lambda>u. Inr (ok_response JNull ten_bytes))\<rparr>"

definition never_ready :: env where
  "never_ready = sample_env (Some ''secret'') (\<lambda>k. processing_attrs)"

definition ready_after :: "nat \<Rightarrow> env" where
  "ready_after n = sample_env (Some ''secret'') (\<lambda>k. if k < n then processing_attrs else ready_attrs)"

definition sample_reply :: "(string \<times> json) list \<Rightarrow> response" where
  "sample_reply attrs = ok_response (JDict (envelope attrs)) []"

definition no_token :: env where
  "no_token = sample_env None (\<lambda>k. ready_attrs)"

definition ready_without_url :: env where
  "ready_without_url = sample_env (Some ''secret'') (\<lambda>k. ready_no_url_attrs)"

definition failed_export :: env where
  "failed_export = sample_env (Some ''secret'') (\<lambda>k. error_attrs)"

definition empty_export :: env where
  "empty_export = sample_env (Some ''secret'') (\<lambda>k. [])"

text \<open>A failed export whose \<open>url\<close> member is a string, and a reply whose \<open>data\<close> is null.\<close>

definition error_string_url_attrs :: "(string \<times> json) list" where
  "error_string_url_attrs = [(''state'', JStr ''ERROR''), (''url'', JStr ''https://example/x.glb'')]"

definition string_url_export :: env where
  "string_url_export = sample_env (Some ''secret'') (\<lambda>k. error_string_url_attrs)"

definition null_data_export :: env where
  "null_data_export =
     (sample_env (Some ''secret'') (\<lambda>k. []))
       \<lparr>post_reply := (\<lambda>k. Inr (ok_response (JDict [(''data'', JNull)]) []))\<rparr>"




section \<open>The requester: what each reply yields\<close>

lemma fst_try_get:
  "fst (try_get_download_url e token asset_id payload w) = requester_result e asset_id (posts w)"
  by (simp add: try_get_download_url_def requests_post_def requester_result_def Let_def split: sum.splits)

lemma try_get_eq:
  "try_get_download_url e token asset_id export_payload w =
     (requester_result e asset_id (posts w), after_post e token asset_id w)"
  by (metis after_post_def fst_try_get prod.collapse)

lemma after_post_fields:
  "now (after_post e t a w) = now w + post_latency e (posts w)"
  "posts (after_post e t a w) = Suc (posts w)"
  "naps (after_post e t a w) = naps w"
  "dirs (after_post e t a w) = dirs w"
  "files (after_post e t a w) = files w"
  "trace (after_post e t a w) =
     trace w @ [HttpPost (API_BASE_URL @ ''/avatars/'' @ a @ ''/export'')
                  [(''Authorization'', ''Bearer '' @ t), (''Content-Type'', ''application/json'')]
                  export_payload]"
  by (simp_all add: after_post_def try_get_download_url_def requests_post_def Let_def split: sum.splits)

lemma check_ok_response:
  assumes "\<not> (400 \<le> status_code r \<and> status_code r < 600)" and "json_body r = Some j"
  shows "check_export_response url r = read_export_response j"
  using assms
  by (auto simp add: check_export_response_def raise_for_status_def response_json_of_def)

lemma sample_reply_fields:
  "\<not> (400 \<le> status_code (sample_reply attrs) \<and> status_code (sample_reply attrs) < 600)"
  "json_body (sample_reply attrs) = Some (JDict (envelope attrs))"
  "map_of (envelope attrs) ''data'' = Some (JDict [(''attributes'', JDict attrs)])"
  "map_of [(''attributes'', JDict attrs)] ''attributes'' = Some (JDict attrs)"
  by (simp_all add: sample_reply_def ok_response_def envelope_def)

lemma sample_post_reply: "post_reply (sample_env tok f) k = Inr (sample_reply (f k))"
  by (simp add: sample_env_def sample_reply_def)

lemma sample_pending:
  "pending_at (sample_env tok f) a k \<longleftrightarrow>
     (case check_export_response (API_BASE_URL @ ''/avatars/'' @ a @ ''/export'')
             (ok_response (JDict (envelope (f k))) []) of Inl ex \<Rightarrow> False | Inr v \<Rightarrow> \<not> truthy v)"
  by (simp add: pending_at_def requester_result_def sample_env_def)

lemma check_processing:
  "check_export_response url (ok_response (JDict (envelope processing_attrs)) bs) = Inr JNull"
  by (simp add: check_export_response_def raise_for_status_def response_json_of_def
      ok_response_def read_export_response_def dict_get_def envelope_def processing_attrs_def
      ASSET_STATE_READY_def ASSET_STATE_ERROR_def)

lemma check_ready:
  "check_export_response url (ok_response (JDict (envelope ready_attrs)) bs)
     = Inr (JStr ''https://example/x.glb'')"
  by (simp add: check_export_response_def raise_for_status_def response_json_of_def
      ok_response_def read_export_response_def dict_get_def envelope_def ready_attrs_def
      ASSET_STATE_READY_def ASSET_STATE_ERROR_def)

text \<open>
  Claim C3.  A reply that arrived with a status outside 400 to 599, whose body is an object
  with \<open>data.attributes.state\<close> equal to \<open>READY\<close> and a string at
  \<open>data.attributes.url.path\<close>, makes \<^verbatim>\<open>try_get_download_url\<close> return exactly that string.
\<close>

theorem ready_returns_url:
  assumes "post_reply e (posts w) = Inr r"
    and "\<not> (400 \<le> status_code r \<and> status_code r < 600)"
    and "json_body r = Some (JDict doc)"
    and "map_of doc ''data'' = Some (JDict dat)"
    and "map_of dat ''attributes'' = Some (JDict attrs)"
    and "map_of attrs ''state'' = Some (JStr ''READY'')"
    and "map_of attrs ''url'' = Some (JDict url_obj)"
    and "map_of url_obj ''path'' = Some (JStr u)"
  shows "fst (try_get_download_url e token asset_id payload w) = Inr (JStr u)"
proof -
  have ne: "attrs \<noteq> []" "url_obj \<noteq> []" using assms by auto
  have "read_export_response (JDict doc) = Inr (JStr u)"
    using assms ne by (simp add: read_export_response_def dict_get_def ASSET_STATE_READY_def)
  then show ?thesis using assms
    by (simp add: fst_try_get requester_result_def check_ok_response)
qed

theorem ready_returns_url_witness:
  "fst (try_get_download_url (ready_after 0) ''secret'' ''abc-123'' export_payload world0)
     = Inr (JStr ''https://example/x.glb'')"
proof -
  have h1: "post_reply (ready_after 0) (posts world0) = Inr (sample_reply ready_attrs)"
    by (simp add: ready_after_def sample_post_reply)
  have h6: "map_of ready_attrs ''state'' = Some (JStr ''READY'')"
    by (simp add: ready_attrs_def)
  have h7: "map_of ready_attrs ''url'' = Some (JDict [(''path'', JStr ''https://example/x.glb'')])"
    by (simp add: ready_attrs_def)
  have h8: "map_of [(''path'', JStr ''https://example/x.glb'')] ''path'' = Some (JStr ''https://example/x.glb'')"
    by simp
  show ?thesis
    by (rule ready_returns_url [OF h1 sample_reply_fields h6 h7 h8])
qed

text \<open>
  Claim C4, as stated, for every reply whose attributes contain the state \<open>ERROR\<close>.  It
  fails when the \<open>url\<close> member is a non-empty string: the source reads \<open>url.path\<close> on line
  68, before it looks at the state, and \<^verbatim>\<open>.get\<close> on a string raises \<^verbatim>\<open>AttributeError\<close>, whose
  message does not carry the body.
\<close>

theorem error_state_string_url_counterexample:
  "map_of error_string_url_attrs ''state'' = Some (JStr ''ERROR'')
   \<and> fst (try_get_download_url string_url_export ''secret'' ''abc-123'' export_payload world0)
       = Inl (AttributeError
               [Lit [CHR 0x27], Lit ''str'', Lit [CHR 0x27],
                Lit '' object has no attribute '', Lit [CHR 0x27], Lit ''get'', Lit [CHR 0x27]])"
proof -
  have "read_export_response (JDict (envelope error_string_url_attrs))
       = Inl (AttributeError
               [Lit [CHR 0x27], Lit ''str'', Lit [CHR 0x27],
                Lit '' object has no attribute '', Lit [CHR 0x27], Lit ''get'', Lit [CHR 0x27]])"
    by (simp add: read_export_response_def dict_get_def envelope_def error_string_url_attrs_def)
  then show ?thesis
    by (simp add: fst_try_get requester_result_def string_url_export_def sample_post_reply
        check_ok_response [OF sample_reply_fields(1,2)] world0_def error_string_url_attrs_def)
qed

text \<open>
  Claim C4, amended.  A reply whose attributes contain the state \<open>ERROR\<close>, and whose \<open>url\<close>
  member is absent, falsy or an object, makes the requester raise \<^verbatim>\<open>RuntimeError\<close>, and the
  message carries the parsed body of the reply.
\<close>

theorem error_state_raises:
  assumes "post_reply e (posts w) = Inr r"
    and "\<not> (400 \<le> status_code r \<and> status_code r < 600)"
    and "json_body r = Some (JDict doc)"
    and "map_of doc ''data'' = Some (JDict dat)"
    and "map_of dat ''attributes'' = Some (JDict attrs)"
    and "map_of attrs ''state'' = Some (JStr ''ERROR'')"
    and "url_member_typed attrs"
  shows "fst (try_get_download_url e token asset_id payload w) =
     Inl (RuntimeError [Lit ''Export finished with ERROR state: '', Str_json (JDict doc)])"
proof -
  have ne: "attrs \<noteq> []" using assms by auto
  have "read_export_response (JDict doc) =
      Inl (RuntimeError [Lit ''Export finished with ERROR state: '', Str_json (JDict doc)])"
    using assms ne
    by (auto simp add: read_export_response_def dict_get_def ASSET_STATE_READY_def
        ASSET_STATE_ERROR_def url_member_typed_def split: option.splits json.splits)
  then show ?thesis using assms
    by (simp add: fst_try_get requester_result_def check_ok_response)
qed

theorem error_state_raises_witness:
  "fst (try_get_download_url failed_export ''secret'' ''abc-123'' export_payload world0)
     = Inl (RuntimeError [Lit ''Export finished with ERROR state: '',
                          Str_json (JDict (envelope error_attrs))])"
proof -
  have h1: "post_reply failed_export (posts world0) = Inr (sample_reply error_attrs)"
    by (simp add: failed_export_def sample_post_reply)
  have h6: "map_of error_attrs ''state'' = Some (JStr ''ERROR'')"
    by (simp add: error_attrs_def)
  have h7: "url_member_typed error_attrs"
    by (simp add: url_member_typed_def error_attrs_def)
  show ?thesis
    by (rule error_state_raises [OF h1 sample_reply_fields h6 h7])
qed

text \<open>
  Claim C5, as stated, for every reply whose top-level attributes are missing or empty.  It
  fails when the \<open>data\<close> member is null: no attributes are there, but \<^verbatim>\<open>.get\<close> on
  \<^verbatim>\<open>None\<close> raises \<^verbatim>\<open>AttributeError\<close> on line 61, before the test of line 63, and the
  message does not carry the body.
\<close>

theorem missing_attributes_null_data_counterexample:
  "attributes_missing_or_empty [(''data'', JNull)]
   \<and> fst (try_get_download_url null_data_export ''secret'' ''abc-123'' export_payload world0)
       = Inl (AttributeError
               [Lit [CHR 0x27], Lit ''NoneType'', Lit [CHR 0x27],
                Lit '' object has no attribute '', Lit [CHR 0x27], Lit ''get'', Lit [CHR 0x27]])"
proof -
  have "read_export_response (JDict [(''data'', JNull)])
       = Inl (AttributeError
               [Lit [CHR 0x27], Lit ''NoneType'', Lit [CHR 0x27],
                Lit '' object has no attribute '', Lit [CHR 0x27], Lit ''get'', Lit [CHR 0x27]])"
    by (simp add: read_export_response_def dict_get_def)
  then show ?thesis
    by (simp add: fst_try_get requester_result_def null_data_export_def sample_env_def
        check_export_response_def raise_for_status_def response_json_of_def ok_response_def
        world0_def attributes_missing_or_empty_def)
qed

text \<open>
  Claim C5, amended.  A reply whose body is an object, whose \<open>data\<close> member is absent or an
  object, and whose top-level attributes are missing (no \<open>data\<close>, or no \<open>attributes\<close>
  inside it) or empty (any falsy value) makes the requester raise \<^verbatim>\<open>ValueError\<close> with the
  parsed body in the message; nothing is returned, neither a URL nor \<^verbatim>\<open>None\<close>.
\<close>

theorem missing_attributes_raises:
  assumes "post_reply e (posts w) = Inr r"
    and "\<not> (400 \<le> status_code r \<and> status_code r < 600)"
    and "json_body r = Some (JDict doc)"
    and "data_member_typed doc"
    and "attributes_missing_or_empty doc"
  shows "fst (try_get_download_url e token asset_id payload w) =
     Inl (ValueError [Lit ''Export response came back empty: '', Str_json (JDict doc)])"
proof -
  have "read_export_response (JDict doc) =
      Inl (ValueError [Lit ''Export response came back empty: '', Str_json (JDict doc)])"
    using assms(4,5)
    by (auto simp add: read_export_response_def dict_get_def attributes_missing_or_empty_def
        data_member_typed_def split: option.splits json.splits)
  then show ?thesis using assms
    by (simp add: fst_try_get requester_result_def check_ok_response)
qed

theorem missing_attributes_raises_witness:
  "data_member_typed (envelope [])
   \<and> attributes_missing_or_empty (envelope [])
   \<and> fst (try_get_download_url empty_export ''secret'' ''abc-123'' export_payload world0)
       = Inl (ValueError [Lit ''Export response came back empty: '', Str_json (JDict (envelope []))])"
proof -
  have h1: "post_reply empty_export (posts world0) = Inr (sample_reply [])"
    by (simp add: empty_export_def sample_post_reply)
  have h4: "data_member_typed (envelope [])"
    by (simp add: data_member_typed_def envelope_def)
  have h5: "attributes_missing_or_empty (envelope [])"
    by (simp add: attributes_missing_or_empty_def envelope_def)
  from missing_attributes_raises [OF h1 sample_reply_fields(1,2) h4 h5] h4 h5
  show ?thesis by blast
qed

text \<open>
  The two conditions of the amended claims are needed in general: the source has no check
  of its own on the type of a member, and \<^verbatim>\<open>.get\<close> on a value that is not a dict raises
  \<^verbatim>\<open>AttributeError\<close>, for every \<open>data\<close> member that is not an object as for every \<open>url\<close>
  member that is truthy and not an object, whatever the state.
\<close>

lemma data_not_object_raises_attribute_error:
  assumes "map_of doc ''data'' = Some d" and "\<forall>kvs. d \<noteq> JDict kvs"
  shows "\<exists>m. read_export_response (JDict doc) = Inl (AttributeError m)"
  using assms by (cases d) (simp_all add: read_export_response_def dict_get_def)

lemma url_not_object_raises_attribute_error:
  assumes "map_of doc ''data'' = Some (JDict dat)"
    and "map_of dat ''attributes'' = Some (JDict attrs)"
    and "map_of attrs ''url'' = Some v" and "truthy v" and "\<forall>kvs. v \<noteq> JDict kvs"
  shows "\<exists>m. read_export_response (JDict doc) = Inl (AttributeError m)"
proof -
  have "attrs \<noteq> []" using assms(3) by auto
  with assms show ?thesis
    by (cases v) (simp_all add: read_export_response_def dict_get_def)
qed

section \<open>The poll loop\<close>

lemma pending_round_fields:
  "now (pending_round e t a s w) = now w + post_latency e (posts w) + 5 + oversleep e (naps w)"
  "posts (pending_round e t a s w) = Suc (posts w)"
  "naps (pending_round e t a s w) = Suc (naps w)"
  "dirs (pending_round e t a s w) = dirs w"
  "files (pending_round e t a s w) = files w"
  by (simp_all add: pending_round_def time_sleep_def emit_def after_post_fields poll_interval_def)

lemma sleeps_of_append: "sleeps_of (xs @ ys) = sleeps_of xs @ sleeps_of ys"
  by (induction xs rule: sleeps_of.induct) simp_all

lemma sleeps_after_post: "sleeps_of (trace (after_post e t a w)) = sleeps_of (trace w)"
  by (simp add: after_post_fields sleeps_of_append)

lemma sleeps_pending_round:
  "sleeps_of (trace (pending_round e t a s w)) = sleeps_of (trace w) @ [5]"
  by (simp add: pending_round_def time_sleep_def emit_def after_post_fields sleeps_of_append
      poll_interval_def)

lemma posts_rounds: "posts (rounds e t a s n w) = posts w + n"
  by (induction n arbitrary: w) (simp_all add: pending_round_fields)

lemma sleeps_rounds:
  "sleeps_of (trace (rounds e t a s n w)) = sleeps_of (trace w) @ replicate n 5"
  by (induction n arbitrary: w) (simp_all add: sleeps_pending_round replicate_append_same)

text \<open>
  One unfolding of the loop, for a falsy \<^verbatim>\<open>download_url\<close>: the requester is called, an
  error or a truthy result ends the loop, and otherwise the elapsed time is compared with
  \<^verbatim>\<open>max_wait\<close> before the progress line is printed and the sleep begins.
\<close>

lemma poll_step:
  assumes "\<not> truthy d"
  shows "poll e t a s d w =
     (case requester_result e a (posts w) of
        Inl ex \<Rightarrow> Some (Inl ex, after_post e t a w)
      | Inr v \<Rightarrow>
          if truthy v then Some (Inr v, after_post e t a w)
          else if now (after_post e t a w) - s > 600 then Some (Inl timeout_error, after_post e t a w)
          else poll e t a s JNull (pending_round e t a s w))"
proof (cases "requester_result e a (posts w)")
  case (Inl ex)
  with assms show ?thesis
    by (subst poll.simps) (simp add: try_get_eq)
next
  case (Inr v)
  show ?thesis
  proof (cases "truthy v")
    case True
    with assms Inr show ?thesis
      by (subst poll.simps) (simp add: try_get_eq)
  next
    case False
    let ?w = "pending_round e t a s w"
    have "poll e t a s v ?w = poll e t a s JNull ?w"
      using False by (subst poll.simps, subst (2) poll.simps) simp
    with assms Inr False show ?thesis
      by (subst poll.simps) (simp add: try_get_eq max_wait_def pending_round_def)
  qed
qed

lemma poll_pending_step:
  assumes "pending_at e a (posts w)" and "now (after_post e t a w) - s \<le> 600"
  shows "poll e t a s JNull w = poll e t a s JNull (pending_round e t a s w)"
  using assms by (subst poll_step) (auto simp add: pending_at_def split: sum.splits)

lemma poll_skip_rounds:
  assumes "\<forall>k<n. pending_at e a (posts w + k)"
    and "\<forall>k<n. now (after_post e t a (rounds e t a s k w)) - s \<le> 600"
  shows "poll e t a s JNull w = poll e t a s JNull (rounds e t a s n w)"
  using assms
proof (induction n arbitrary: w)
  case 0
  then show ?case by simp
next
  case (Suc n)
  have first: "pending_at e a (posts w)" "now (after_post e t a w) - s \<le> 600"
    using Suc.prems(1) [rule_format, of 0] Suc.prems(2) [rule_format, of 0] by simp_all
  have "\<forall>k<n. pending_at e a (posts (pending_round e t a s w) + k)"
    using Suc.prems(1) by (auto simp add: pending_round_fields dest: spec [where x = "Suc k" for k])
  moreover have "\<forall>k<n. now (after_post e t a (rounds e t a s k (pending_round e t a s w))) - s \<le> 600"
  proof (intro allI impI)
    fix k assume "k < n"
    then show "now (after_post e t a (rounds e t a s k (pending_round e t a s w))) - s \<le> 600"
      using Suc.prems(2) [rule_format, of "Suc k"] by simp
  qed
  ultimately have "poll e t a s JNull (pending_round e t a s w) =
      poll e t a s JNull (rounds e t a s n (pending_round e t a s w))"
    by (rule Suc.IH)
  with first show ?case
    by (simp add: poll_pending_step)
qed

lemma poll_timeout_at:
  assumes "\<forall>k<n. pending_at e a (posts w + k)"
    and "pending_at e a (posts w + n)"
    and "\<forall>k<n. now (after_post e t a (rounds e t a s k w)) - s \<le> 600"
    and "now (after_post e t a (rounds e t a s n w)) - s > 600"
  shows "poll e t a s JNull w = Some (Inl timeout_error, after_post e t a (rounds e t a s n w))"
proof -
  have "poll e t a s JNull w = poll e t a s JNull (rounds e t a s n w)"
    using assms(1,3) by (rule poll_skip_rounds)
  also have "\<dots> = Some (Inl timeout_error, after_post e t a (rounds e t a s n w))"
    using assms(2,4)
    by (subst poll_step) (auto simp add: posts_rounds pending_at_def split: sum.splits)
  finally show ?thesis .
qed

text \<open>
  When every result is pending, the clock never runs backwards and no sleep is cut short,
  the distance to the deadline shrinks by at least five seconds a round, so the loop ends.
\<close>

lemma poll_times_out:
  assumes pend: "\<forall>k. pending_at e a k"
    and lat: "\<forall>k. 0 \<le> post_latency e k"
    and over: "\<forall>k. 0 \<le> oversleep e k"
  shows "600 - (now w - s) < 5 * real m \<Longrightarrow>
     \<exists>n\<le>m. poll e t a s JNull w = Some (Inl timeout_error, after_post e t a (rounds e t a s n w))
       \<and> now (after_post e t a (rounds e t a s n w)) - s > 600
       \<and> (\<forall>k<n. now (after_post e t a (rounds e t a s k w)) - s \<le> 600)"
proof (induction m arbitrary: w)
  case 0
  have "now (after_post e t a w) - s > 600"
    using 0 lat [rule_format, of "posts w"] by (simp add: after_post_fields)
  moreover from this have "poll e t a s JNull w = Some (Inl timeout_error, after_post e t a w)"
    using pend [rule_format, of "posts w"]
    by (subst poll_step) (auto simp add: pending_at_def split: sum.splits)
  ultimately show ?case by simp
next
  case (Suc m)
  show ?case
  proof (cases "now (after_post e t a w) - s > 600")
    case True
    then have "poll e t a s JNull w = Some (Inl timeout_error, after_post e t a w)"
      using pend [rule_format, of "posts w"]
      by (subst poll_step) (auto simp add: pending_at_def split: sum.splits)
    with True have "poll e t a s JNull w = Some (Inl timeout_error, after_post e t a (rounds e t a s 0 w))
       \<and> now (after_post e t a (rounds e t a s 0 w)) - s > 600
       \<and> (\<forall>k<0. now (after_post e t a (rounds e t a s k w)) - s \<le> 600)"
      by simp
    then show ?thesis by blast
  next
    case False
    let ?w = "pending_round e t a s w"
    have step: "poll e t a s JNull w = poll e t a s JNull ?w"
      using False pend by (simp add: poll_pending_step)
    have "600 - (now ?w - s) < 5 * real m"
      using Suc.prems lat [rule_format, of "posts w"] over [rule_format, of "naps w"]
      by (simp add: pending_round_fields)
    from Suc.IH [OF this] obtain n where n: "n \<le> m"
      "poll e t a s JNull ?w = Some (Inl timeout_error, after_post e t a (rounds e t a s n ?w))"
      "now (after_post e t a (rounds e t a s n ?w)) - s > 600"
      "\<forall>k<n. now (after_post e t a (rounds e t a s k ?w)) - s \<le> 600"
      by blast
    have "\<forall>k<Suc n. now (after_post e t a (rounds e t a s k w)) - s \<le> 600"
    proof (intro allI impI)
      fix k assume "k < Suc n"
      then show "now (after_post e t a (rounds e t a s k w)) - s \<le> 600"
        using False n(4) by (cases k) simp_all
    qed
    with n step have "Suc n \<le> Suc m \<and>
        poll e t a s JNull w = Some (Inl timeout_error, after_post e t a (rounds e t a s (Suc n) w))
       \<and> now (after_post e t a (rounds e t a s (Suc n) w)) - s > 600
       \<and> (\<forall>k<Suc n. now (after_post e t a (rounds e t a s k w)) - s \<le> 600)"
      by simp
    then show ?thesis by blast
  qed
qed

lemma now_sample_rounds:
  "now (rounds (sample_env tok f) t a s n w) = now w + 5 * real n"
  by (induction n arbitrary: w) (simp_all add: pending_round_fields sample_env_def)

lemma now_sample_after_post:
  "now (after_post (sample_env tok f) t a w) = now w"
  by (simp add: after_post_fields sample_env_def)

text \<open>
  Claim C1.  If the requester returns a pending result on every call (and the clock does not
  run backwards, and a sleep lasts at least as long as asked), \<^verbatim>\<open>export_avatar\<close> returns:
  it raises \<^verbatim>\<open>TimeoutError\<close> with the message naming 600 seconds.  The error is raised
  right after the POST of round \<open>n\<close>, before any sleep of that round, at the first check
  where the time elapsed since the loop began is strictly more than 600 seconds; every
  earlier round passed its check and slept 5 seconds, and there are at most 121 of them.
\<close>

theorem export_avatar_times_out:
  assumes "\<forall>k. pending_at e a k"
    and "\<forall>k. 0 \<le> post_latency e k"
    and "\<forall>k. 0 \<le> oversleep e k"
  shows "\<exists>n\<le>121.
     export_avatar e t a w =
       Some (Inl (TimeoutError [Lit ''Export timed out after '', Str_int 600, Lit '' seconds'']),
             after_post e t a (rounds e t a (now w) n w))
     \<and> now (after_post e t a (rounds e t a (now w) n w)) - now w > 600
     \<and> (\<forall>k<n. now (after_post e t a (rounds e t a (now w) k w)) - now w \<le> 600)
     \<and> sleeps_of (trace (after_post e t a (rounds e t a (now w) n w)))
         = sleeps_of (trace w) @ replicate n 5"
proof -
  have "600 - (now w - now w) < 5 * real 121" by simp
  from poll_times_out [OF assms this, of t]
  show ?thesis
    by (simp add: export_avatar_def timeout_error_def max_wait_def sleeps_after_post sleeps_rounds)
qed

theorem export_avatar_times_out_witness:
  "(\<forall>k. pending_at never_ready ''abc-123'' k)
   \<and> (\<forall>k. 0 \<le> post_latency never_ready k)
   \<and> (\<forall>k. 0 \<le> oversleep never_ready k)
   \<and> (\<exists>n\<le>121.
     export_avatar never_ready ''secret'' ''abc-123'' world0 =
       Some (Inl (TimeoutError [Lit ''Export timed out after '', Str_int 600, Lit '' seconds'']),
             after_post never_ready ''secret'' ''abc-123''
               (rounds never_ready ''secret'' ''abc-123'' (now world0) n world0))
     \<and> now (after_post never_ready ''secret'' ''abc-123''
               (rounds never_ready ''secret'' ''abc-123'' (now world0) n world0)) - now world0 > 600
     \<and> (\<forall>k<n. now (after_post never_ready ''secret'' ''abc-123''
               (rounds never_ready ''secret'' ''abc-123'' (now world0) k world0)) - now world0 \<le> 600)
     \<and> sleeps_of (trace (after_post never_ready ''secret'' ''abc-123''
               (rounds never_ready ''secret'' ''abc-123'' (now world0) n world0)))
         = sleeps_of (trace world0) @ replicate n 5)"
proof -
  have h1: "\<forall>k. pending_at never_ready ''abc-123'' k"
    by (simp add: never_ready_def sample_pending check_processing)
  have h2: "\<forall>k. 0 \<le> post_latency never_ready k"
    by (simp add: never_ready_def sample_env_def)
  have h3: "\<forall>k. 0 \<le> oversleep never_ready k"
    by (simp add: never_ready_def sample_env_def)
  from export_avatar_times_out [OF h1 h2 h3, of "''secret''" world0] h1 h2 h3
  show ?thesis by blast
qed

text \<open>
  Claim C2, as stated, for every \<open>N\<close>.  It fails at \<open>N = 122\<close> on an exact clock: the
  first 122 results are pending, the 123rd call would return the URL, but the check after
  the 122nd result finds 605 seconds elapsed and the loop raises \<^verbatim>\<open>TimeoutError\<close>.
\<close>

theorem returns_url_for_every_N_counterexample:
  "list_all (pending_at (ready_after 122) ''abc-123'') [0..<122]
   \<and> requester_result (ready_after 122) ''abc-123'' 122 = Inr (JStr ''https://example/x.glb'')
   \<and> map_option fst (export_avatar (ready_after 122) ''secret'' ''abc-123'' world0)
       = Some (Inl timeout_error)"
proof -
  have p: "pending_at (ready_after 122) ''abc-123'' k" if "k < 122" for k
    using that by (simp add: ready_after_def sample_pending check_processing)
  have r: "requester_result (ready_after 122) ''abc-123'' 122 = Inr (JStr ''https://example/x.glb'')"
    by (simp add: ready_after_def requester_result_def sample_env_def check_ready)
  have "poll (ready_after 122) ''secret'' ''abc-123'' 0 JNull world0 =
      Some (Inl timeout_error, after_post (ready_after 122) ''secret'' ''abc-123''
              (rounds (ready_after 122) ''secret'' ''abc-123'' 0 121 world0))"
  proof (rule poll_timeout_at)
    show "\<forall>k<121. pending_at (ready_after 122) ''abc-123'' (posts world0 + k)"
      using p by (simp add: world0_def)
    show "pending_at (ready_after 122) ''abc-123'' (posts world0 + 121)"
      using p [of 121] by (simp add: world0_def)
    show "\<forall>k<121. now (after_post (ready_after 122) ''secret'' ''abc-123''
              (rounds (ready_after 122) ''secret'' ''abc-123'' 0 k world0)) - 0 \<le> 600"
      by (simp add: ready_after_def now_sample_after_post now_sample_rounds world0_def)
    show "now (after_post (ready_after 122) ''secret'' ''abc-123''
              (rounds (ready_after 122) ''secret'' ''abc-123'' 0 121 world0)) - 0 > 600"
      by (simp add: ready_after_def now_sample_after_post now_sample_rounds world0_def)
  qed
  then have "map_option fst (export_avatar (ready_after 122) ''secret'' ''abc-123'' world0)
       = Some (Inl timeout_error)"
    by (simp add: export_avatar_def world0_def)
  with p r show ?thesis
    by (simp add: list_all_iff)
qed

text \<open>
  Claim C2, amended.  If the requester returns a pending result on its first \<open>N\<close> calls
  and a non-empty URL on the next one, and at each of the \<open>N\<close> checks no more than 600
  seconds have elapsed since the loop began, then \<^verbatim>\<open>export_avatar\<close> returns that URL
  after exactly \<open>N\<close> sleeps of 5 seconds.
\<close>

theorem export_avatar_returns_url:
  assumes "\<forall>k<N. pending_at e a (posts w + k)"
    and "requester_result e a (posts w + N) = Inr (JStr u)"
    and "u \<noteq> []"
    and "\<forall>k<N. now (after_post e t a (rounds e t a (now w) k w)) - now w \<le> 600"
  shows "export_avatar e t a w = Some (Inr (JStr u), after_post e t a (rounds e t a (now w) N w))
     \<and> sleeps_of (trace (after_post e t a (rounds e t a (now w) N w)))
         = sleeps_of (trace w) @ replicate N 5"
proof -
  have "poll e t a (now w) JNull w = poll e t a (now w) JNull (rounds e t a (now w) N w)"
    using assms(1,4) by (rule poll_skip_rounds)
  also have "\<dots> = Some (Inr (JStr u), after_post e t a (rounds e t a (now w) N w))"
    using assms(2,3) by (subst poll_step) (simp_all add: posts_rounds)
  finally show ?thesis
    by (simp add: export_avatar_def sleeps_after_post sleeps_rounds)
qed

theorem export_avatar_returns_url_witness:
  "requester_result (ready_after 1) ''abc-123'' (posts world0 + 1) = Inr (JStr ''https://example/x.glb'')
   \<and> export_avatar (ready_after 1) ''secret'' ''abc-123'' world0
       = Some (Inr (JStr ''https://example/x.glb''),
               after_post (ready_after 1) ''secret'' ''abc-123''
                 (rounds (ready_after 1) ''secret'' ''abc-123'' (now world0) 1 world0))
   \<and> sleeps_of (trace (after_post (ready_after 1) ''secret'' ''abc-123''
                 (rounds (ready_after 1) ''secret'' ''abc-123'' (now world0) 1 world0)))
       = sleeps_of (trace world0) @ replicate 1 5"
proof -
  have h1: "\<forall>k<1. pending_at (ready_after 1) ''abc-123'' (posts world0 + k)"
    by (simp add: ready_after_def sample_pending check_processing world0_def)
  have h2: "requester_result (ready_after 1) ''abc-123'' (posts world0 + 1) = Inr (JStr ''https://example/x.glb'')"
    by (simp add: ready_after_def requester_result_def sample_env_def check_ready world0_def)
  have h3: "''https://example/x.glb'' \<noteq> []" by simp
  have h4: "\<forall>k<1. now (after_post (ready_after 1) ''secret'' ''abc-123''
              (rounds (ready_after 1) ''secret'' ''abc-123'' (now world0) k world0)) - now world0 \<le> 600"
    by (simp add: ready_after_def now_sample_after_post world0_def)
  from export_avatar_returns_url [OF h1 h2 h3 h4] h2
  show ?thesis by blast
qed

text \<open>
  Claim C6.  A reply with the state \<open>READY\<close> and no \<open>url.path\<close> (no \<open>url\<close>, or a
  \<open>url\<close> object that is empty or has no \<open>path\<close>) makes the requester return \<^verbatim>\<open>None\<close>
  without an error, and the loop goes on as for any pending result: it checks the deadline
  and, unless that has passed, sleeps 5 seconds and calls the requester again.
\<close>

theorem ready_without_url_keeps_polling:
  assumes "post_reply e (posts w) = Inr r"
    and "\<not> (400 \<le> status_code r \<and> status_code r < 600)"
    and "json_body r = Some (JDict doc)"
    and "map_of doc ''data'' = Some (JDict dat)"
    and "map_of dat ''attributes'' = Some (JDict attrs)"
    and "map_of attrs ''state'' = Some (JStr ''READY'')"
    and "url_path_absent attrs"
  shows "fst (try_get_download_url e token asset_id export_payload w) = Inr JNull
     \<and> poll e token asset_id start_time JNull w =
         (if now (after_post e token asset_id w) - start_time > 600
          then Some (Inl timeout_error, after_post e token asset_id w)
          else poll e token asset_id start_time JNull (pending_round e token asset_id start_time w))
     \<and> posts (pending_round e token asset_id start_time w) = Suc (posts w)
     \<and> sleeps_of (trace (pending_round e token asset_id start_time w)) = sleeps_of (trace w) @ [5]"
proof -
  have ne: "attrs \<noteq> []" using assms by auto
  have "read_export_response (JDict doc) = Inr JNull"
    using assms ne
    by (auto simp add: read_export_response_def dict_get_def ASSET_STATE_READY_def
        url_path_absent_def split: option.splits json.splits)
  then have res: "requester_result e asset_id (posts w) = Inr JNull"
    using assms by (simp add: requester_result_def check_ok_response)
  then have "poll e token asset_id start_time JNull w =
         (if now (after_post e token asset_id w) - start_time > 600
          then Some (Inl timeout_error, after_post e token asset_id w)
          else poll e token asset_id start_time JNull (pending_round e token asset_id start_time w))"
    by (subst poll_step) simp_all
  with res show ?thesis
    by (simp add: fst_try_get pending_round_fields sleeps_pending_round)
qed

theorem ready_without_url_keeps_polling_witness:
  "url_path_absent ready_no_url_attrs
   \<and> fst (try_get_download_url ready_without_url ''secret'' ''abc-123'' export_payload world0) = Inr JNull
   \<and> poll ready_without_url ''secret'' ''abc-123'' 0 JNull world0 =
       (if now (after_post ready_without_url ''secret'' ''abc-123'' world0) - 0 > 600
        then Some (Inl timeout_error, after_post ready_without_url ''secret'' ''abc-123'' world0)
        else poll ready_without_url ''secret'' ''abc-123'' 0 JNull
               (pending_round ready_without_url ''secret'' ''abc-123'' 0 world0))
   \<and> posts (pending_round ready_without_url ''secret'' ''abc-123'' 0 world0) = Suc (posts world0)
   \<and> sleeps_of (trace (pending_round ready_without_url ''secret'' ''abc-123'' 0 world0))
       = sleeps_of (trace world0) @ [5]"
proof -
  have h1: "post_reply ready_without_url (posts world0) = Inr (sample_reply ready_no_url_attrs)"
    by (simp add: ready_without_url_def sample_post_reply)
  have h6: "map_of ready_no_url_attrs ''state'' = Some (JStr ''READY'')"
    by (simp add: ready_no_url_attrs_def)
  have h7: "url_path_absent ready_no_url_attrs"
    by (simp add: url_path_absent_def ready_no_url_attrs_def)
  from ready_without_url_keeps_polling [OF h1 sample_reply_fields h6 h7] h7
  show ?thesis by blast
qed

section \<open>The downloader\<close>



lemma iter_content_chunk_bounds:
  "0 < n \<Longrightarrow> c \<in> set (iter_content n bs) \<Longrightarrow> c \<noteq> [] \<and> length c \<le> n"
proof (induction n bs rule: iter_content.induct)
  case (1 n bs)
  then show ?case
    by (subst (asm) (2) iter_content.simps) (auto split: if_splits)
qed

lemma file_write_fields:
  "files (file_write p c w) = (files w)(p \<mapsto> (case files w p of None \<Rightarrow> [] | Some old \<Rightarrow> old) @ c)"
  "dirs (file_write p c w) = dirs w"
  "trace (file_write p c w) = trace w @ [Write p c]"
  by (simp_all add: file_write_def emit_def)



lemma fold_file_write_trace:
  "trace (fold (file_write p) cs w) = trace w @ map (Write p) cs"
  by (induction cs arbitrary: w) (simp_all add: file_write_fields)

lemma not_dir_after_mkdir:
  assumes "\<not> is_dir w p"
  shows "\<not> is_dir (w\<lparr>dirs := dirs w \<union> set (prefixes (parent p))\<rparr>) p"
proof -
  from assms have "p \<noteq> []" "p \<noteq> [''/'']" by (auto simp add: is_dir_def)
  then have "parent p = butlast p" by (simp add: parent_def)
  moreover have "\<not> prefix p (butlast p)"
    using \<open>p \<noteq> []\<close> by (metis prefix_length_le length_butlast diff_less length_greater_0_conv
        less_numeral_extra(1) not_less)
  ultimately show ?thesis
    using assms by (simp add: is_dir_def)
qed

lemma mkdir_parents_ok:
  assumes "\<forall>q \<in> set (prefixes d). files w q = None"
  shows "mkdir_parents d w = (Inr (), emit (Mkdir d) (w\<lparr>dirs := dirs w \<union> set (prefixes d)\<rparr>))"
  using assms by (simp add: mkdir_parents_def)


lemma open_wb_ok:
  assumes "\<not> is_dir w p" and "is_dir w (parent p)"
  shows "open_wb p w = (Inr (), emit (OpenWB p) (w\<lparr>files := (files w)(p \<mapsto> [])\<rparr>))"
  using assms by (simp add: open_wb_def)


lemma is_dir_emit [simp]: "is_dir (emit ev w) p = is_dir w p"
  by (simp add: is_dir_def emit_def)

lemma emit_fields [simp]:
  "trace (emit ev w) = trace w @ [ev]"
  "files (emit ev w) = files w"
  "dirs (emit ev w) = dirs w"
  "now (emit ev w) = now w"
  "posts (emit ev w) = posts w"
  "naps (emit ev w) = naps w"
  by (simp_all add: emit_def)


lemma opened_for_download:
  assumes "can_open w p"
  shows "mkdir_parents (parent p) w =
           (Inr (), emit (Mkdir (parent p)) (w\<lparr>dirs := dirs w \<union> set (prefixes (parent p))\<rparr>))"
    and "open_wb p (emit (Mkdir (parent p)) (w\<lparr>dirs := dirs w \<union> set (prefixes (parent p))\<rparr>)) =
           (Inr (), emit (OpenWB p)
              (emit (Mkdir (parent p)) (w\<lparr>dirs := dirs w \<union> set (prefixes (parent p))\<rparr>)
                \<lparr>files := (files w)(p \<mapsto> [])\<rparr>))"
proof -
  show "mkdir_parents (parent p) w =
           (Inr (), emit (Mkdir (parent p)) (w\<lparr>dirs := dirs w \<union> set (prefixes (parent p))\<rparr>))"
    using assms by (simp add: can_open_def mkdir_parents_ok)
  have "\<not> is_dir (w\<lparr>dirs := dirs w \<union> set (prefixes (parent p))\<rparr>) p"
    using assms by (simp add: can_open_def not_dir_after_mkdir)
  moreover have "is_dir (w\<lparr>dirs := dirs w \<union> set (prefixes (parent p))\<rparr>) (parent p)"
    by (simp add: is_dir_def)
  ultimately show "open_wb p (emit (Mkdir (parent p)) (w\<lparr>dirs := dirs w \<union> set (prefixes (parent p))\<rparr>)) =
           (Inr (), emit (OpenWB p)
              (emit (Mkdir (parent p)) (w\<lparr>dirs := dirs w \<union> set (prefixes (parent p))\<rparr>)
                \<lparr>files := (files w)(p \<mapsto> [])\<rparr>))"
    by (simp add: open_wb_ok)
qed



lemma download_ok:
  assumes "can_open w (Path p)" and "fetch e u = Inr r" and "breaks_after r = None"
  shows "fst (download_file e u p w) = Inr ()"
  using opened_for_download [OF assms(1)] assms(2,3)
  by (simp add: download_file_def Let_def write_chunks_def)

lemma sample_fetch:
  "fetch (sample_env tok f) (JStr u) = Inr (ok_response JNull ten_bytes)"
  by (simp add: fetch_def requests_get_def sample_env_def raise_for_status_def ok_response_def)








section \<open>The orchestrator\<close>

lemma pending_round_trace:
  "trace (pending_round e t a s w) =
     trace (after_post e t a w)
       @ [Stdout (progress_line (now (after_post e t a w) - s)), Sleep 5]"
  by (simp add: pending_round_def time_sleep_def poll_interval_def)

text \<open>
  Whatever the loop returns, the first POST went out before: by the induction principle of
  the loop as a partial function.
\<close>

lemma poll_trace:
  assumes "poll e t a s d w = Some y"
  shows "\<not> truthy d \<longrightarrow> prefix (trace (after_post e t a w)) (trace (snd y))"
proof (rule poll.raw_induct
    [where P = "\<lambda>e t a s d w y. \<not> truthy d \<longrightarrow> prefix (trace (after_post e t a w)) (trace (snd y))",
     OF _ assms])
  fix pollf e t a s d w y
  assume IH: "\<And>e t a s d w y. pollf e t a s d w = Some y \<Longrightarrow>
      \<not> truthy d \<longrightarrow> prefix (trace (after_post e t a w)) (trace (snd y))"
    and body: "(if truthy d then Some (Inr d, w)
      else case try_get_download_url e t a export_payload w of
           (Inl ex, w1) \<Rightarrow> Some (Inl ex, w1)
           | (Inr d', w1) \<Rightarrow>
               if truthy d' then Some (Inr d', w1)
               else if real_of_int max_wait < now w1 - s then Some (Inl timeout_error, w1)
                    else pollf e t a s d'
                          (time_sleep e poll_interval
                            (emit (Stdout (progress_line (now w1 - s))) w1))) = Some y"
  show "\<not> truthy d \<longrightarrow> prefix (trace (after_post e t a w)) (trace (snd y))"
  proof
    assume falsy: "\<not> truthy d"
    show "prefix (trace (after_post e t a w)) (trace (snd y))"
    proof (cases "requester_result e a (posts w)")
      case (Inl ex)
      with body falsy show ?thesis by (auto simp add: try_get_eq)
    next
      case (Inr v)
      show ?thesis
      proof (cases "truthy v \<or> now (after_post e t a w) - s > 600")
        case True
        with body falsy Inr show ?thesis
          by (auto simp add: try_get_eq max_wait_def split: if_splits)
      next
        case False
        with body falsy Inr have "pollf e t a s v (pending_round e t a s w) = Some y"
          by (simp add: try_get_eq max_wait_def pending_round_def)
        from IH [OF this] False
        have "prefix (trace (after_post e t a (pending_round e t a s w))) (trace (snd y))"
          by simp
        then have "prefix (trace (pending_round e t a s w)) (trace (snd y))"
          unfolding after_post_fields(6) [of e t a "pending_round e t a s w"]
          by (rule append_prefixD)
        then show ?thesis
          unfolding pending_round_trace by (rule append_prefixD)
      qed
    qed
  qed
qed

lemma write_chunks_trace: "\<exists>rest. trace (snd (write_chunks p r w)) = trace w @ rest"
  by (simp add: write_chunks_def Let_def fold_file_write_trace split: option.splits)

lemma download_trace: "\<exists>rest. trace (snd (download_file e u p w)) = trace w @ rest"
proof (cases "mkdir_parents (parent (Path p)) w")
  case made: (Pair r1 w1)
  then have t1: "trace w1 = trace w @ [Mkdir (parent (Path p))]"
    by (auto simp add: mkdir_parents_def split: if_splits)
  show ?thesis
  proof (cases r1)
    case (Inl ex)
    with made t1 show ?thesis by (simp add: download_file_def Let_def)
  next
    case r1: (Inr u1)
    show ?thesis
    proof (cases "open_wb (Path p) w1")
      case opened: (Pair r2 w2)
      then have t2: "\<exists>rest. trace w2 = trace w1 @ rest"
        by (auto simp add: open_wb_def split: if_splits)
      show ?thesis
      proof (cases r2)
        case (Inl ex)
        with made r1 opened t1 t2 show ?thesis by (auto simp add: download_file_def Let_def)
      next
        case r2: (Inr u2)
        show ?thesis
        proof (cases "fetch e u")
          case (Inl ex)
          with made r1 opened r2 t1 t2 show ?thesis by (auto simp add: download_file_def Let_def)
        next
          case (Inr r)
          from write_chunks_trace [of "Path p" r "emit (HttpGet u) w2"]
          obtain rest where "trace (snd (write_chunks (Path p) r (emit (HttpGet u) w2))) =
              trace w2 @ HttpGet u # rest"
            by auto
          with made r1 opened r2 Inr t1 t2 show ?thesis
            by (cases "write_chunks (Path p) r (emit (HttpGet u) w2)")
               (auto simp add: download_file_def Let_def split: sum.splits)
        qed
      qed
    qed
  qed
qed

lemma export_avatar_first_ready:
  assumes "requester_result e a (posts w) = Inr v" and "truthy v"
  shows "export_avatar e t a w = Some (Inr v, after_post e t a w)"
  using assms unfolding export_avatar_def by (subst poll_step) simp_all

lemma main_empty_id_succeeds: "map_option fst (main (ready_after 0) [] world0) = Some 0"
proof -
  let ?w2 = "emit (Stdout [Lit ''Step 2: Exporting avatar...''])
               (emit (Stdout [Lit ''Step 1: Getting API token...'']) world0)"
  let ?w4 = "emit (Stdout [Lit ''Step 3: Downloading avatar...''])
               (emit (Stdout [Lit ''Export completed!''])
                  (after_post (ready_after 0) ''secret'' [] ?w2))"
  have tok: "getenv (ready_after 0) ''MESHCAPADE_API_TOKEN'' = Some ''secret''"
    by (simp add: ready_after_def sample_env_def)
  have "requester_result (ready_after 0) [] (posts ?w2) = Inr (JStr ''https://example/x.glb'')"
    by (simp add: ready_after_def requester_result_def sample_env_def check_ready)
  then have ex: "export_avatar (ready_after 0) ''secret'' [] ?w2 =
      Some (Inr (JStr ''https://example/x.glb''), after_post (ready_after 0) ''secret'' [] ?w2)"
    by (rule export_avatar_first_ready) simp
  have "can_open ?w4 (Path ''.glb'')"
    by (simp add: can_open_def Path_def parent_def is_dir_def after_post_fields world0_def)
  then have "fst (download_file (ready_after 0) (JStr ''https://example/x.glb'') ''.glb'' ?w4) = Inr ()"
    by (rule download_ok [where r = "ok_response JNull ten_bytes"])
       (simp_all add: ready_after_def sample_fetch ok_response_def)
  with tok ex show ?thesis
    by (auto simp add: main_def main_steps_def Let_def split: prod.splits sum.splits)
qed

text \<open>
  Claim C8.  With the token variable unset or empty, \<^verbatim>\<open>main\<close> ends with exit status 1.
  All it has done is to print the first progress line and then, on standard error, the one
  line \<open>Error: MESHCAPADE_API_TOKEN is not set in the environment variables\<close>: no request
  was sent, no directory or file was made, the clock and the disk are as they were.
\<close>

theorem missing_token_fails_first:
  assumes "getenv e ''MESHCAPADE_API_TOKEN'' = None \<or> getenv e ''MESHCAPADE_API_TOKEN'' = Some []"
  shows "main e asset_id w =
     Some (1, w\<lparr>trace := trace w @
                  [Stdout [Lit ''Step 1: Getting API token...''],
                   Stderr [Lit ''Error: '',
                           Lit ''MESHCAPADE_API_TOKEN is not set in the environment variables'']]\<rparr>)"
  using assms by (auto simp add: main_def main_steps_def Let_def emit_def)

theorem missing_token_fails_first_witness:
  "(getenv no_token ''MESHCAPADE_API_TOKEN'' = None \<or> getenv no_token ''MESHCAPADE_API_TOKEN'' = Some [])
   \<and> main no_token ''abc-123'' world0 =
     Some (1, world0\<lparr>trace := trace world0 @
                  [Stdout [Lit ''Step 1: Getting API token...''],
                   Stderr [Lit ''Error: '',
                           Lit ''MESHCAPADE_API_TOKEN is not set in the environment variables'']]\<rparr>)"
proof -
  have h: "getenv no_token ''MESHCAPADE_API_TOKEN'' = None \<or> getenv no_token ''MESHCAPADE_API_TOKEN'' = Some []"
    by (simp add: no_token_def sample_env_def)
  from missing_token_fails_first [OF h, of "''abc-123''" world0] h show ?thesis by blast
qed

text \<open>
  Claim C9, as stated: an empty asset identifier is rejected.  It is not: with the empty
  identifier that \<^verbatim>\<open>parse_args\<close> accepts, a token and a ready export, \<^verbatim>\<open>main\<close> ends
  with exit status 0.
\<close>

theorem empty_asset_id_rejected_counterexample:
  "map_option fst (main (ready_after 0) [] world0) = Some 0"
  by (rule main_empty_id_succeeds)

text \<open>
  Claim C9, amended.  The asset identifier is not validated at all, not for non-emptiness
  either: for every identifier, empty or not, once the token is found the next thing any
  completed run has done is to POST to \<open>/avatars/<asset_id>/export\<close> with that identifier.
\<close>

theorem asset_id_used_unvalidated:
  assumes "getenv e ''MESHCAPADE_API_TOKEN'' = Some token"
    and "token \<noteq> []"
    and "main e asset_id w = Some res"
  shows "prefix
     (trace w @
        [Stdout [Lit ''Step 1: Getting API token...''],
         Stdout [Lit ''Step 2: Exporting avatar...''],
         HttpPost (API_BASE_URL @ ''/avatars/'' @ asset_id @ ''/export'')
           [(''Authorization'', ''Bearer '' @ token), (''Content-Type'', ''application/json'')]
           export_payload])
     (trace (snd res))"
proof -
  let ?w2 = "emit (Stdout [Lit ''Step 2: Exporting avatar...''])
               (emit (Stdout [Lit ''Step 1: Getting API token...'']) w)"
  let ?sent = "trace (after_post e token asset_id ?w2)"
  from assms obtain y where y: "export_avatar e token asset_id ?w2 = Some y"
    by (cases "export_avatar e token asset_id ?w2") (simp_all add: main_def main_steps_def Let_def)
  then have sent: "prefix ?sent (trace (snd y))"
    using poll_trace [of e token asset_id "now ?w2" JNull ?w2 y] by (simp add: export_avatar_def)
  have "prefix (trace (snd y)) (trace (snd res))"
  proof (cases y)
    case (Pair r w3)
    show ?thesis
    proof (cases r)
      case (Inl ex)
      with assms y Pair show ?thesis
        by (auto simp add: main_def main_steps_def Let_def)
    next
      case (Inr u)
      let ?w4 = "emit (Stdout [Lit ''Step 3: Downloading avatar...''])
                   (emit (Stdout [Lit ''Export completed!'']) w3)"
      from download_trace [of e u "asset_id @ ''.glb''" ?w4]
      obtain rest where "trace (snd (download_file e u (asset_id @ ''.glb'') ?w4)) = trace ?w4 @ rest"
        by blast
      with assms y Pair Inr show ?thesis
        by (cases "download_file e u (asset_id @ ''.glb'') ?w4")
           (auto simp add: main_def main_steps_def Let_def split: sum.splits)
    qed
  qed
  with sent have "prefix ?sent (trace (snd res))"
    by (rule prefix_order.trans)
  then show ?thesis
    by (simp add: after_post_fields)
qed

theorem asset_id_used_unvalidated_witness:
  "getenv (ready_after 0) ''MESHCAPADE_API_TOKEN'' = Some ''secret''
   \<and> ''secret'' \<noteq> []
   \<and> (\<exists>res. main (ready_after 0) [] world0 = Some res
        \<and> prefix
           (trace world0 @
              [Stdout [Lit ''Step 1: Getting API token...''],
               Stdout [Lit ''Step 2: Exporting avatar...''],
               HttpPost (API_BASE_URL @ ''/avatars/'' @ [] @ ''/export'')
                 [(''Authorization'', ''Bearer '' @ ''secret''), (''Content-Type'', ''application/json'')]
                 export_payload])
           (trace (snd res)))"
proof -
  have h1: "getenv (ready_after 0) ''MESHCAPADE_API_TOKEN'' = Some ''secret''"
    by (simp add: ready_after_def sample_env_def)
  have h2: "''secret'' \<noteq> []" by simp
  from main_empty_id_succeeds obtain res where h3: "main (ready_after 0) [] world0 = Some res"
    by (cases "main (ready_after 0) [] world0") simp_all
  from asset_id_used_unvalidated [OF h1 h2 h3] h1 h2 h3 show ?thesis by blast
qed

end
